theory Spec2Isabelle
  imports
    Main
    "HOL-Library.Sublist"
    "HOL-Library.Multiset"
    "HOL-Library.Char_ord"
    "HOL-Library.List_Lexorder"
begin

section \<open>The documentation index of gptproto-docs-mcp\<close>

text \<open>
  A shallow embedding of \<^verbatim>\<open>tools/gptproto-docs.ts\<close>: the index cache
  (\<^verbatim>\<open>loadIndex\<close>, \<^verbatim>\<open>loadIndexSync\<close>, \<^verbatim>\<open>fetchRemoteIndex\<close>,
  \<^verbatim>\<open>loadCachedIndex\<close>) and the three queries (\<^verbatim>\<open>searchDocs\<close>,
  \<^verbatim>\<open>getDocContent\<close>, \<^verbatim>\<open>listApis\<close>).

  Strings are lists of \<^typ>\<open>char\<close>. The source's strings are sequences of UTF-16 code units;
  the model covers the ASCII range, where \<^verbatim>\<open>toLowerCase\<close> maps A-Z to a-z, the
  regular expression \<^verbatim>\<open>\s\<close> matches tab, line feed, vertical tab, form feed, carriage
  return and space, and the default order of \<^verbatim>\<open>Array.prototype.sort\<close> is the
  lexicographic order of the character codes.
\<close>

subsection \<open>Data model\<close>

record DocEntry =
  path :: string
  title :: string
  description :: string
  vendor :: string
  model :: string
  format :: string
  capability :: string
  category :: string
  content :: string

record DocsIndex =
  version :: string
  generatedAt :: string
  totalDocs :: int
  vendors :: "string list"
  entries :: "DocEntry list"

subsection \<open>String operations of the host language\<close>

definition lower_char :: "char \<Rightarrow> char" where
  "lower_char c =
     (case map_of (zip ''ABCDEFGHIJKLMNOPQRSTUVWXYZ'' ''abcdefghijklmnopqrstuvwxyz'') c of
        None \<Rightarrow> c
      | Some d \<Rightarrow> d)"

definition toLowerCase :: "string \<Rightarrow> string" where
  "toLowerCase s = map lower_char s"

text \<open>\<^verbatim>\<open>s.includes(t)\<close>: \<open>t\<close> occurs in \<open>s\<close> as a contiguous run.\<close>

fun str_includes :: "string \<Rightarrow> string \<Rightarrow> bool" where
  "str_includes [] t = (t = [])"
| "str_includes (c # cs) t = (prefix t (c # cs) \<or> str_includes cs t)"

definition is_space :: "char \<Rightarrow> bool" where
  "is_space c \<longleftrightarrow>
     c \<in> set [CHR 0x09, CHR 0x0A, CHR 0x0B, CHR 0x0C, CHR 0x0D, CHR '' '']"

text \<open>
  \<^verbatim>\<open>s.split(/\s+/)\<close>: the pieces between maximal runs of whitespace. A leading or
  trailing run leaves an empty piece at that end, and the empty string splits into one
  empty piece. \<open>cur\<close> is the piece being read.
\<close>

function split_from :: "string \<Rightarrow> string \<Rightarrow> string list" where
  "split_from cur [] = [cur]"
| "split_from cur (c # cs) =
     (if is_space c then cur # split_from [] (dropWhile is_space cs)
      else split_from (cur @ [c]) cs)"
  by pat_completeness auto
termination
  by (relation "measure (\<lambda>(cur, s). length s)")
     (auto simp: length_dropWhile_le less_Suc_eq_le)

definition split_ws :: "string \<Rightarrow> string list" where
  "split_ws s = split_from [] s"

text \<open>\<^verbatim>\<open>xs.join(sep)\<close>\<close>

fun join :: "string \<Rightarrow> string list \<Rightarrow> string" where
  "join sep [] = []"
| "join sep [x] = x"
| "join sep (x # y # ys) = x @ sep @ join sep (y # ys)"

text \<open>
  \<^verbatim>\<open>xs.slice(0, n)\<close>: a negative end counts from the end of the array, an end beyond
  the length stops at the length.
\<close>

definition slice0 :: "'a list \<Rightarrow> int \<Rightarrow> 'a list" where
  "slice0 xs n =
     (let len = int (length xs);
          k = (if n < 0 then max (len + n) 0 else min n len)
      in take (nat k) xs)"

subsection \<open>Ranked search\<close>

text \<open>
  The terms of a query: \<^verbatim>\<open>query.toLowerCase().split(/\s+/).filter(Boolean)\<close>.
  \<^verbatim>\<open>filter(Boolean)\<close> drops the empty pieces.
\<close>

definition queryTerms :: "string \<Rightarrow> string list" where
  "queryTerms query = filter (\<lambda>t. t \<noteq> []) (split_ws (toLowerCase query))"

definition searchableText :: "DocEntry \<Rightarrow> string" where
  "searchableText entry =
     toLowerCase (join '' ''
       [title entry, description entry, path entry, vendor entry, model entry,
        capability entry])"

text \<open>One pass of the loop body over the query terms: six independent tests in a row.\<close>

definition score_term :: "DocEntry \<Rightarrow> string \<Rightarrow> int \<Rightarrow> int" where
  "score_term entry term score0 =
     (let s1 = (if str_includes (toLowerCase (model entry)) term then score0 + 10 else score0);
          s2 = (if str_includes (toLowerCase (vendor entry)) term then s1 + 8 else s1);
          s3 = (if str_includes (toLowerCase (title entry)) term then s2 + 5 else s2);
          s4 = (if str_includes (toLowerCase (capability entry)) term then s3 + 4 else s3);
          s5 = (if str_includes (toLowerCase (description entry)) term then s4 + 2 else s4);
          s6 = (if str_includes (searchableText entry) term then s5 + 1 else s5)
      in s6)"

text \<open>The callback of \<^verbatim>\<open>index.entries.map\<close>: the score starts at 0.\<close>

definition score_entry :: "string list \<Rightarrow> DocEntry \<Rightarrow> int" where
  "score_entry terms entry = fold (score_term entry) terms 0"

text \<open>
  \<^verbatim>\<open>.sort((a, b) => b.score - a.score)\<close>: the sort of the host language is stable, so
  it is the insertion sort on the negated score.
\<close>

definition sort_by_score :: "(DocEntry \<times> int) list \<Rightarrow> (DocEntry \<times> int) list" where
  "sort_by_score scored = sort_key (\<lambda>s. - snd s) scored"

text \<open>The body of \<^verbatim>\<open>searchDocs\<close> after the index has been loaded.\<close>

definition search_index :: "DocsIndex \<Rightarrow> string \<Rightarrow> int \<Rightarrow> DocEntry list" where
  "search_index index query limit =
     (let terms = queryTerms query;
          scored = map (\<lambda>entry. (entry, score_entry terms entry)) (entries index)
      in map fst (slice0 (sort_by_score (filter (\<lambda>s. snd s > 0) scored)) limit))"

subsection \<open>The outside world: the remote index, the two files, the clock\<close>

text \<open>
  A JSON text either does not parse (\<^verbatim>\<open>JSON.parse\<close> and \<^verbatim>\<open>response.json()\<close>
  throw) or parses to a value that the source takes at the type \<^verbatim>\<open>DocsIndex | null\<close>:
  \<open>JsonText (Some index)\<close> is the text of an index, \<open>JsonText None\<close> the text of a
  value that the tests \<^verbatim>\<open>if (remoteIndex)\<close> and \<^verbatim>\<open>if (fallbackIndex)\<close> take
  for false, such as \<^verbatim>\<open>null\<close>.
\<close>

datatype json_text = NotJson | JsonText "DocsIndex option"

text \<open>
  The outcome of \<^verbatim>\<open>fetch\<close>: the promise rejects (network error, or the 10 second
  timeout), or a response arrives with its \<^verbatim>\<open>ok\<close> flag and its body.
\<close>

datatype response = Rejected | Response bool json_text

text \<open>A file that exists: reading it throws, or gives its text.\<close>

datatype disk_file = Unreadable | File json_text

datatype fs_path = CACHE_DIR | CACHE_INDEX_PATH | LOCAL_INDEX_PATH

datatype io =
    Fetch
  | ConsoleError
  | ExistsSync fs_path
  | MkdirSync
  | WriteFileSync
  | ReadFileSync fs_path

text \<open>
  \<open>cache_file\<close> and \<open>local_file\<close> are \<open>None\<close> when \<^verbatim>\<open>existsSync\<close> is false.
  \<open>mkdir_ok\<close> and \<open>write_ok\<close> say whether \<^verbatim>\<open>mkdirSync\<close> and
  \<^verbatim>\<open>writeFileSync\<close> would succeed. \<open>io_log\<close> records every I/O operation performed,
  in order.
\<close>

record world =
  remote :: response
  cache_dir_exists :: bool
  mkdir_ok :: bool
  write_ok :: bool
  cache_file :: "disk_file option"
  local_file :: "disk_file option"
  io_log :: "io list"

definition emit :: "io \<Rightarrow> world \<Rightarrow> world" where
  "emit ev w = w\<lparr>io_log := io_log w @ [ev]\<rparr>"

text \<open>The module's two variables.\<close>

record cache_state =
  cachedIndex :: "DocsIndex option"
  lastFetchTime :: int

definition initial_state :: cache_state where
  "initial_state = \<lparr>cachedIndex = None, lastFetchTime = 0\<rparr>"

definition CACHE_TTL :: int where
  "CACHE_TTL = 60 * 60 * 1000"

datatype error =
    IndexUnavailable
  | IndexNotLoaded
  | DocumentNotFound string

subsection \<open>Acquiring the index\<close>

text \<open>\<^verbatim>\<open>ensureCacheDir\<close>; the flag is False when \<^verbatim>\<open>mkdirSync\<close> throws.\<close>

definition ensureCacheDir :: "world \<Rightarrow> bool \<times> world" where
  "ensureCacheDir w =
     (let w1 = emit (ExistsSync CACHE_DIR) w in
      if \<not> cache_dir_exists w1 then
        (let w2 = emit MkdirSync w1 in
         if mkdir_ok w2 then (True, w2\<lparr>cache_dir_exists := True\<rparr>) else (False, w2))
      else (True, w1))"

text \<open>
  \<^verbatim>\<open>writeFileSync(CACHE_INDEX_PATH, JSON.stringify(index))\<close>; the flag is False when it
  throws. The text written parses back to the value it came from.
\<close>

definition writeFileSync :: "DocsIndex option \<Rightarrow> world \<Rightarrow> bool \<times> world" where
  "writeFileSync index w =
     (let w1 = emit WriteFileSync w in
      if write_ok w1 then (True, w1\<lparr>cache_file := Some (File (JsonText index))\<rparr>)
      else (False, w1))"

text \<open>The inner \<^verbatim>\<open>try { ensureCacheDir(); writeFileSync(...) } catch { }\<close>.\<close>

definition persist :: "DocsIndex option \<Rightarrow> world \<Rightarrow> world" where
  "persist index w =
     (case ensureCacheDir w of
        (True, w1) \<Rightarrow> snd (writeFileSync index w1)
      | (False, w1) \<Rightarrow> w1)"

definition fetchRemoteIndex :: "world \<Rightarrow> DocsIndex option \<times> world" where
  "fetchRemoteIndex w =
     (let w1 = emit Fetch w in
      case remote w1 of
        Rejected \<Rightarrow> (None, emit ConsoleError w1)
      | Response ok body \<Rightarrow>
          if \<not> ok then (None, emit ConsoleError w1)
          else (case body of
                  NotJson \<Rightarrow> (None, emit ConsoleError w1)
                | JsonText index \<Rightarrow> (index, persist index w1)))"

text \<open>The second half of \<^verbatim>\<open>loadCachedIndex\<close>: the bundled index.\<close>

definition load_bundled :: "world \<Rightarrow> DocsIndex option \<times> world" where
  "load_bundled w =
     (let w1 = emit (ExistsSync LOCAL_INDEX_PATH) w in
      case local_file w1 of
        None \<Rightarrow> (None, w1)
      | Some f \<Rightarrow>
          (let w2 = emit (ReadFileSync LOCAL_INDEX_PATH) w1 in
           case f of
             File (JsonText v) \<Rightarrow> (v, w2)
           | _ \<Rightarrow> (None, w2)))"

text \<open>
  \<^verbatim>\<open>loadCachedIndex\<close>: when the disk cache exists and parses, its value is returned
  at once, whatever it is; the bundled index is tried when the disk cache is missing or
  reading or parsing it throws.
\<close>

definition loadCachedIndex :: "world \<Rightarrow> DocsIndex option \<times> world" where
  "loadCachedIndex w =
     (let w1 = emit (ExistsSync CACHE_INDEX_PATH) w in
      case cache_file w1 of
        None \<Rightarrow> load_bundled w1
      | Some f \<Rightarrow>
          (let w2 = emit (ReadFileSync CACHE_INDEX_PATH) w1 in
           case f of
             File (JsonText v) \<Rightarrow> (v, w2)
           | _ \<Rightarrow> load_bundled w2))"

text \<open>\<^verbatim>\<open>loadIndex\<close> after the test of the memory cache has failed.\<close>

definition refresh ::
  "cache_state \<Rightarrow> world \<Rightarrow> int \<Rightarrow> (error + DocsIndex) \<times> cache_state \<times> world" where
  "refresh st w now =
     (case fetchRemoteIndex w of
        (Some remoteIndex, w1) \<Rightarrow>
          (Inr remoteIndex, st\<lparr>cachedIndex := Some remoteIndex, lastFetchTime := now\<rparr>, w1)
      | (None, w1) \<Rightarrow>
          (case loadCachedIndex w1 of
             (Some fallbackIndex, w2) \<Rightarrow>
               (Inr fallbackIndex,
                st\<lparr>cachedIndex := Some fallbackIndex, lastFetchTime := now\<rparr>, w2)
           | (None, w2) \<Rightarrow> (Inl IndexUnavailable, st, w2)))"

text \<open>\<^verbatim>\<open>loadIndex\<close>; \<open>now\<close> is the value of \<^verbatim>\<open>Date.now()\<close>.\<close>

definition loadIndex ::
  "cache_state \<Rightarrow> world \<Rightarrow> int \<Rightarrow> (error + DocsIndex) \<times> cache_state \<times> world" where
  "loadIndex st w now =
     (case cachedIndex st of
        Some index \<Rightarrow>
          if now - lastFetchTime st < CACHE_TTL then (Inr index, st, w)
          else refresh st w now
      | None \<Rightarrow> refresh st w now)"

definition loadIndexSync ::
  "cache_state \<Rightarrow> world \<Rightarrow> (error + DocsIndex) \<times> cache_state \<times> world" where
  "loadIndexSync st w =
     (case cachedIndex st of
        Some index \<Rightarrow> (Inr index, st, w)
      | None \<Rightarrow>
          (case loadCachedIndex w of
             (Some fallbackIndex, w1) \<Rightarrow>
               (Inr fallbackIndex, st\<lparr>cachedIndex := Some fallbackIndex\<rparr>, w1)
           | (None, w1) \<Rightarrow> (Inl IndexNotLoaded, st, w1)))"

subsection \<open>The three queries\<close>

text \<open>\<^verbatim>\<open>searchDocs(query, limit = 20)\<close>; \<open>None\<close> is the omitted limit.\<close>

definition searchDocs ::
  "cache_state \<Rightarrow> world \<Rightarrow> int \<Rightarrow> string \<Rightarrow> int option \<Rightarrow>
     (error + DocEntry list) \<times> cache_state \<times> world" where
  "searchDocs st w now query limit =
     (case loadIndex st w now of
        (Inl err, s) \<Rightarrow> (Inl err, s)
      | (Inr index, s) \<Rightarrow>
          (Inr (search_index index query (case limit of None \<Rightarrow> 20 | Some l \<Rightarrow> l)), s))"

record DocContent =
  doc_content :: string
  metadata :: "DocEntry option"

definition getDocContent ::
  "cache_state \<Rightarrow> world \<Rightarrow> int \<Rightarrow> string \<Rightarrow> (error + DocContent) \<times> cache_state \<times> world" where
  "getDocContent st w now docPath =
     (case loadIndex st w now of
        (Inl err, s) \<Rightarrow> (Inl err, s)
      | (Inr index, s) \<Rightarrow>
          (case find (\<lambda>e. path e = docPath) (entries index) of
             None \<Rightarrow> (Inl (DocumentNotFound docPath), s)
           | Some entry \<Rightarrow>
               (Inr \<lparr>doc_content = content entry, metadata = Some entry\<rparr>, s)))"

text \<open>
  \<^verbatim>\<open>Map<string, Set<string>>\<close>: keys in the order of their first insertion, each with
  its set, whose elements are in the order of their first insertion too.
\<close>

type_synonym str_map = "(string \<times> string list) list"

definition set_add :: "string \<Rightarrow> string list \<Rightarrow> string list" where
  "set_add x xs = (if x \<in> set xs then xs else xs @ [x])"

definition map_has :: "str_map \<Rightarrow> string \<Rightarrow> bool" where
  "map_has m k \<longleftrightarrow> k \<in> set (map fst m)"

text \<open>\<^verbatim>\<open>m.set(k, new Set())\<close> for a key that \<open>m\<close> does not have.\<close>

definition map_set_new :: "str_map \<Rightarrow> string \<Rightarrow> str_map" where
  "map_set_new m k = m @ [(k, [])]"

text \<open>\<^verbatim>\<open>m.get(k)!.add(x)\<close>\<close>

definition map_get_add :: "str_map \<Rightarrow> string \<Rightarrow> string \<Rightarrow> str_map" where
  "map_get_add m k x = map (\<lambda>(k', s). if k' = k then (k', set_add x s) else (k', s)) m"

record Api =
  api_vendor :: string
  api_model :: string
  capabilities :: "string list"

record ApiList =
  list_vendors :: "string list"
  apis :: "Api list"

text \<open>The body of the loop over \<^verbatim>\<open>vendorEntries\<close>.\<close>

definition collect_capability :: "DocEntry \<Rightarrow> str_map \<Rightarrow> str_map" where
  "collect_capability entry modelMap =
     (let m1 = (if \<not> map_has modelMap (model entry) then map_set_new modelMap (model entry)
                else modelMap)
      in if capability entry \<noteq> [] then map_get_add m1 (model entry) (capability entry)
         else m1)"

text \<open>The body of the loop over \<^verbatim>\<open>index.entries\<close> when no vendor is given.\<close>

definition collect_model :: "DocEntry \<Rightarrow> str_map \<Rightarrow> str_map" where
  "collect_model entry vendorModels =
     (if vendor entry \<noteq> [] \<and> category entry = ''api'' then
        (let m1 = (if \<not> map_has vendorModels (vendor entry)
                   then map_set_new vendorModels (vendor entry) else vendorModels)
         in map_get_add m1 (vendor entry) (model entry))
      else vendorModels)"

text \<open>The decimal digits of a number, as a template literal prints it.\<close>

fun show_nat :: "nat \<Rightarrow> string" where
  "show_nat n =
     (if n < 10 then [''0123456789'' ! n]
      else show_nat (n div 10) @ [''0123456789'' ! (n mod 10)])"

declare show_nat.simps [simp del]

text \<open>
  The body of \<^verbatim>\<open>listApis\<close> after the index has been loaded. The test
  \<^verbatim>\<open>if (vendor)\<close> is false for the omitted vendor and for the empty string.
\<close>

definition list_index :: "DocsIndex \<Rightarrow> string option \<Rightarrow> ApiList" where
  "list_index index vendor_arg =
     (case (case vendor_arg of None \<Rightarrow> None | Some v \<Rightarrow> if v \<noteq> [] then Some v else None) of
        Some v \<Rightarrow>
          (let vendorLower = toLowerCase v;
               vendorEntries = filter (\<lambda>e. toLowerCase (vendor e) = vendorLower
                                             \<and> category e = ''api'') (entries index);
               modelMap = fold collect_capability vendorEntries [];
               shown = (case vendorEntries of
                          [] \<Rightarrow> v
                        | e # _ \<Rightarrow> if vendor e \<noteq> [] then vendor e else v)
           in \<lparr>list_vendors = [v],
               apis = map (\<lambda>(m, caps). \<lparr>api_vendor = shown, api_model = m,
                                          capabilities = sort caps\<rparr>) modelMap\<rparr>)
      | None \<Rightarrow>
          (let vendorModels = fold collect_model (entries index) []
           in \<lparr>list_vendors = vendors index,
               apis = map (\<lambda>(v, models). \<lparr>api_vendor = v,
                              api_model = show_nat (length models) @ '' models available'',
                              capabilities = []\<rparr>) vendorModels\<rparr>))"

definition listApis ::
  "cache_state \<Rightarrow> world \<Rightarrow> int \<Rightarrow> string option \<Rightarrow> (error + ApiList) \<times> cache_state \<times> world" where
  "listApis st w now vendor_arg =
     (case loadIndex st w now of
        (Inl err, s) \<Rightarrow> (Inl err, s)
      | (Inr index, s) \<Rightarrow> (Inr (list_index index vendor_arg), s))"

subsection \<open>The two grouping loops as one\<close>

text \<open>
  Both loops of \<^verbatim>\<open>listApis\<close> make sure that a key has a set and then add at most one
  element to it. \<open>collect\<close> is that step for a key and an optional element; the lemmas
  below show each loop body to be an instance of it.
\<close>

definition add_item :: "string option \<Rightarrow> string list \<Rightarrow> string list" where
  "add_item xo s = (case xo of None \<Rightarrow> s | Some x \<Rightarrow> set_add x s)"

definition collect :: "string \<times> string option \<Rightarrow> str_map \<Rightarrow> str_map" where
  "collect p m =
     (let m1 = (if \<not> map_has m (fst p) then map_set_new m (fst p) else m)
      in case snd p of None \<Rightarrow> m1 | Some x \<Rightarrow> map_get_add m1 (fst p) x)"

subsection \<open>Notions of the specification\<close>

text \<open>The memory cache is fresh: an index is cached and less than an hour has elapsed.\<close>

definition memory_fresh :: "cache_state \<Rightarrow> int \<Rightarrow> bool" where
  "memory_fresh st now \<longleftrightarrow> cachedIndex st \<noteq> None \<and> now - lastFetchTime st < CACHE_TTL"

text \<open>The states of the two variables that a process can be in.\<close>

inductive reachable :: "cache_state \<Rightarrow> bool" where
  start: "reachable initial_state"
| after_loadIndex: "reachable st \<Longrightarrow> reachable (fst (snd (loadIndex st w now)))"
| after_loadIndexSync: "reachable st \<Longrightarrow> reachable (fst (snd (loadIndexSync st w)))"

text \<open>The score of an entry for a query, as \<^verbatim>\<open>searchDocs\<close> computes it.\<close>

definition doc_score :: "string \<Rightarrow> DocEntry \<Rightarrow> int" where
  "doc_score query entry = score_entry (queryTerms query) entry"

text \<open>A bonus of \<open>n\<close> points when the test holds.\<close>

definition points :: "bool \<Rightarrow> int \<Rightarrow> int" where
  "points hit n = (if hit then n else 0)"

text \<open>
  The bonuses of one term, with the last one read on the text that the source builds:
  the six fields joined by single spaces, in lower case.
\<close>

definition term_points :: "DocEntry \<Rightarrow> string \<Rightarrow> int" where
  "term_points entry term =
     points (str_includes (toLowerCase (model entry)) term) 10
     + points (str_includes (toLowerCase (vendor entry)) term) 8
     + points (str_includes (toLowerCase (title entry)) term) 5
     + points (str_includes (toLowerCase (capability entry)) term) 4
     + points (str_includes (toLowerCase (description entry)) term) 2
     + points (str_includes (searchableText entry) term) 1"

text \<open>
  The bonuses of one term with the last one read as the specification words it: on the
  concatenation of title, description, path, vendor, model and capability.
\<close>

definition concatenated_text :: "DocEntry \<Rightarrow> string" where
  "concatenated_text entry =
     toLowerCase (title entry @ description entry @ path entry @ vendor entry @ model entry
                  @ capability entry)"

definition claimed_term_points :: "DocEntry \<Rightarrow> string \<Rightarrow> int" where
  "claimed_term_points entry term =
     points (str_includes (toLowerCase (model entry)) term) 10
     + points (str_includes (toLowerCase (vendor entry)) term) 8
     + points (str_includes (toLowerCase (title entry)) term) 5
     + points (str_includes (toLowerCase (capability entry)) term) 4
     + points (str_includes (toLowerCase (description entry)) term) 2
     + points (str_includes (concatenated_text entry) term) 1"

definition claimed_score :: "string \<Rightarrow> DocEntry \<Rightarrow> int" where
  "claimed_score query entry = sum_list (map (claimed_term_points entry) (queryTerms query))"

text \<open>The entries that \<^verbatim>\<open>listApis\<close> keeps for a vendor, and those it keeps for none.\<close>

definition vendor_entries :: "DocsIndex \<Rightarrow> string \<Rightarrow> DocEntry list" where
  "vendor_entries index v =
     filter (\<lambda>e. category e = ''api'' \<and> toLowerCase (vendor e) = toLowerCase v) (entries index)"


subsection \<open>Concrete data\<close>

definition gpt4o_entry :: DocEntry where
  "gpt4o_entry =
     \<lparr>path = ''docs/OpenAI/gpt-4o/chat'',
      title = ''gpt-4o Chat'',
      description = [],
      vendor = ''OpenAI'',
      model = ''gpt-4o'',
      format = ''official'',
      capability = ''chat'',
      category = ''api'',
      content = ''# chat''\<rparr>"

definition gpt4o_image_entry :: DocEntry where
  "gpt4o_image_entry =
     \<lparr>path = ''docs/OpenAI/gpt-4o/image'',
      title = ''gpt-4o Image'',
      description = ''Vision'',
      vendor = ''OpenAI'',
      model = ''gpt-4o'',
      format = ''official'',
      capability = ''image'',
      category = ''api'',
      content = ''# image''\<rparr>"

definition claude_entry :: DocEntry where
  "claude_entry =
     \<lparr>path = ''docs/Claude/claude-3/chat'',
      title = ''claude-3 Chat'',
      description = ''Like gpt-4o'',
      vendor = ''Claude'',
      model = ''claude-3'',
      format = ''official'',
      capability = ''chat'',
      category = ''api'',
      content = ''# claude-3''\<rparr>"

definition guide_entry :: DocEntry where
  "guide_entry =
     \<lparr>path = ''docs/guide/billing'',
      title = ''Billing'',
      description = ''Costs'',
      vendor = [],
      model = [],
      format = [],
      capability = [],
      category = ''guide'',
      content = ''# Billing''\<rparr>"

text \<open>An entry whose title ends in \<open>GPT\<close> and whose description starts with \<open>4o\<close>.\<close>

definition split_entry :: DocEntry where
  "split_entry =
     \<lparr>path = ''docs/OpenAI/omni/chat'',
      title = ''GPT'',
      description = ''4o model'',
      vendor = ''OpenAI'',
      model = ''omni'',
      format = ''official'',
      capability = ''chat'',
      category = ''api'',
      content = ''# omni''\<rparr>"

definition single_index :: DocsIndex where
  "single_index =
     \<lparr>version = ''1.0.0'', generatedAt = ''2025-01-01'', totalDocs = 1,
      vendors = [''OpenAI''], entries = [gpt4o_entry]\<rparr>"

definition small_index :: DocsIndex where
  "small_index =
     \<lparr>version = ''1.0.0'', generatedAt = ''2025-01-01'', totalDocs = 4,
      vendors = [''Claude'', ''OpenAI''],
      entries = [claude_entry, guide_entry, gpt4o_entry, gpt4o_image_entry]\<rparr>"

text \<open>A state whose memory cache holds \<open>small_index\<close>, obtained at time 5000.\<close>

definition warm_state :: cache_state where
  "warm_state = \<lparr>cachedIndex = Some small_index, lastFetchTime = 5000\<rparr>"

text \<open>No network, no disk cache, the bundled index in place.\<close>

definition offline_world :: world where
  "offline_world =
     \<lparr>remote = Rejected, cache_dir_exists = False, mkdir_ok = True, write_ok = True,
      cache_file = None, local_file = Some (File (JsonText (Some single_index))),
      io_log = []\<rparr>"

text \<open>No network, a disk cache that holds an index, and the bundled index.\<close>

definition disk_cache_world :: world where
  "disk_cache_world =
     \<lparr>remote = Rejected, cache_dir_exists = True, mkdir_ok = True, write_ok = True,
      cache_file = Some (File (JsonText (Some small_index))),
      local_file = Some (File (JsonText (Some single_index))),
      io_log = []\<rparr>"

text \<open>
  No network, a disk cache that holds the JSON text \<^verbatim>\<open>null\<close>, and the bundled index
  in place.
\<close>

definition null_cache_world :: world where
  "null_cache_world =
     \<lparr>remote = Rejected, cache_dir_exists = True, mkdir_ok = True, write_ok = True,
      cache_file = Some (File (JsonText None)),
      local_file = Some (File (JsonText (Some single_index))),
      io_log = []\<rparr>"

text \<open>
  The remote answers 200 with the body \<^verbatim>\<open>null\<close>; the disk cache and the bundled index
  both hold an index.
\<close>

definition null_remote_world :: world where
  "null_remote_world =
     \<lparr>remote = Response True (JsonText None), cache_dir_exists = True, mkdir_ok = True,
      write_ok = True,
      cache_file = Some (File (JsonText (Some small_index))),
      local_file = Some (File (JsonText (Some single_index))),
      io_log = []\<rparr>"

text \<open>The remote answers with an index; the cache directory cannot be created.\<close>

definition readonly_world :: world where
  "readonly_world =
     \<lparr>remote = Response True (JsonText (Some small_index)), cache_dir_exists = False,
      mkdir_ok = False, write_ok = False, cache_file = None, local_file = None,
      io_log = []\<rparr>"

section \<open>Properties\<close>

subsection \<open>Strings and scores\<close>

text \<open>\<open>str_includes\<close> is the substring test.\<close>

lemma str_includes_sublist: "str_includes s t \<longleftrightarrow> sublist t s"
  by (induction s) (auto simp: sublist_Cons_right)

lemma toLowerCase_Nil_iff [simp]: "toLowerCase s = [] \<longleftrightarrow> s = []"
  by (simp add: toLowerCase_def)

text \<open>Every piece of a split is made of characters of \<open>cur\<close> and of non-blank characters.\<close>

lemma split_from_chars:
  "t \<in> set (split_from cur s) \<Longrightarrow> c \<in> set t \<Longrightarrow> c \<in> set cur \<or> \<not> is_space c"
proof (induction cur s arbitrary: t rule: split_from.induct)
  case (1 cur)
  then show ?case by simp
next
  case (2 cur c' cs)
  show ?case
  proof (cases "is_space c'")
    case True
    with "2.prems" have "t = cur \<or> t \<in> set (split_from [] (dropWhile is_space cs))"
      by simp
    then show ?thesis
    proof
      assume "t = cur"
      with "2.prems" show ?thesis by simp
    next
      assume "t \<in> set (split_from [] (dropWhile is_space cs))"
      from "2.IH"(1) [OF True this "2.prems"(2)] show ?thesis by simp
    qed
  next
    case False
    with "2.prems" have "t \<in> set (split_from (cur @ [c']) cs)" by simp
    from "2.IH"(2) [OF False this "2.prems"(2)] False show ?thesis by auto
  qed
qed

text \<open>The terms of a query are non-empty and contain no whitespace.\<close>

lemma queryTerms_words:
  assumes "t \<in> set (queryTerms query)"
  shows "t \<noteq> [] \<and> (\<forall>c\<in>set t. \<not> is_space c)"
proof -
  from assms have "t \<in> set (split_from [] (toLowerCase query))" and "t \<noteq> []"
    by (simp_all add: queryTerms_def split_ws_def)
  then show ?thesis
    using split_from_chars [of t "[]" "toLowerCase query"] by auto
qed

text \<open>
  C2, as the source computes it. The score of an entry is the sum, over the terms of the
  query, of the bonuses of the term: 10 for the model, 8 for the vendor, 5 for the title,
  4 for the capability, 2 for the description, each when the term is a substring of the
  field in lower case, and 1 when the term is a substring of the lower-cased text made of
  title, description, path, vendor, model and capability joined by single spaces.
\<close>

theorem doc_score_sum_of_bonuses:
  "doc_score query entry = sum_list (map (term_points entry) (queryTerms query))"
proof -
  have loop: "fold (score_term entry) terms score0
              = score0 + sum_list (map (term_points entry) terms)" for terms score0
  proof (induction terms arbitrary: score0)
    case Nil
    show ?case by simp
  next
    case (Cons t ts)
    have "score_term entry t score0 = score0 + term_points entry t"
      by (simp add: score_term_def term_points_def points_def Let_def)
    with Cons.IH [of "score0 + term_points entry t"] show ?case
      by simp
  qed
  show ?thesis
    unfolding doc_score_def score_entry_def loop by simp
qed

theorem doc_score_sum_of_bonuses_witness:
  "doc_score ''gpt-4o'' gpt4o_entry
     = sum_list (map (term_points gpt4o_entry) (queryTerms ''gpt-4o''))
   \<and> doc_score ''gpt-4o'' gpt4o_entry = 16"
proof -
  have "doc_score ''gpt-4o'' gpt4o_entry = 16"
    by code_simp
  with doc_score_sum_of_bonuses [of "''gpt-4o''" gpt4o_entry] show ?thesis
    by (rule conjI)
qed

text \<open>
  C2, as the claim words it, fails: with the last bonus read on the plain concatenation of
  the six fields, the query \<open>gpt4o\<close> earns one point on an entry whose title is \<open>GPT\<close>
  and whose description starts with \<open>4o\<close>, since the term straddles the two fields. The
  source puts a space between the fields and gives the entry no point.
\<close>

theorem doc_score_not_plain_concatenation:
  "doc_score ''gpt4o'' split_entry \<noteq> claimed_score ''gpt4o'' split_entry
   \<and> doc_score ''gpt4o'' split_entry = 0
   \<and> claimed_score ''gpt4o'' split_entry = 1"
  by code_simp

subsection \<open>The memory cache\<close>

text \<open>
  C1. In a state where an index is cached in memory and less than one hour has elapsed
  since \<open>lastFetchTime\<close>, \<open>loadIndex\<close> returns the cached index, leaves both variables as
  they are, and leaves the world as it is: no fetch, no file operation, nothing logged.
  The result is never an error.
\<close>

theorem loadIndex_memory_hit:
  assumes "cachedIndex st = Some index" and "now - lastFetchTime st < CACHE_TTL"
  shows "loadIndex st w now = (Inr index, st, w)
         \<and> io_log (snd (snd (loadIndex st w now))) = io_log w"
  using assms by (simp add: loadIndex_def)

theorem loadIndex_memory_hit_witness:
  "cachedIndex warm_state = Some small_index
   \<and> 3000000 - lastFetchTime warm_state < CACHE_TTL
   \<and> loadIndex warm_state offline_world 3000000 = (Inr small_index, warm_state, offline_world)
   \<and> io_log (snd (snd (loadIndex warm_state offline_world 3000000))) = io_log offline_world"
  using loadIndex_memory_hit [of warm_state small_index 3000000 offline_world]
  by (simp add: warm_state_def CACHE_TTL_def)

subsection \<open>Remote refresh and disk fallback\<close>

text \<open>Every I/O operation is appended to the log; a refresh starts with the fetch.\<close>

lemma fetchRemoteIndex_log:
  "\<exists>rest. io_log (snd (fetchRemoteIndex w)) = io_log w @ Fetch # rest"
  by (auto simp: fetchRemoteIndex_def persist_def ensureCacheDir_def writeFileSync_def emit_def
      Let_def split: response.splits json_text.splits)

lemma load_bundled_log:
  "\<exists>rest. io_log (snd (load_bundled w)) = io_log w @ rest"
  by (auto simp: load_bundled_def emit_def Let_def
      split: option.splits disk_file.splits json_text.splits)

lemma loadCachedIndex_log:
  "\<exists>rest. io_log (snd (loadCachedIndex w)) = io_log w @ rest"
proof -
  define w1 where "w1 = emit (ExistsSync CACHE_INDEX_PATH) w"
  define w2 where "w2 = emit (ReadFileSync CACHE_INDEX_PATH) w1"
  have b1: "\<exists>rest. io_log (snd (load_bundled w1)) = io_log w @ rest"
    using load_bundled_log [of w1] by (auto simp: w1_def emit_def)
  have b2: "\<exists>rest. io_log (snd (load_bundled w2)) = io_log w @ rest"
    using load_bundled_log [of w2] by (auto simp: w2_def w1_def emit_def)
  have direct: "\<exists>rest. io_log w2 = io_log w @ rest"
    by (simp add: w2_def w1_def emit_def)
  have unfold: "loadCachedIndex w
      = (case cache_file w1 of
           None \<Rightarrow> load_bundled w1
         | Some f \<Rightarrow> (case f of File (JsonText v) \<Rightarrow> (v, w2) | _ \<Rightarrow> load_bundled w2))"
    unfolding loadCachedIndex_def w2_def w1_def Let_def ..
  show ?thesis
    unfolding unfold using b1 b2 direct
    by (simp split: option.splits disk_file.splits json_text.splits)
qed

lemma refresh_log:
  "\<exists>rest. io_log (snd (snd (refresh st w now))) = io_log w @ Fetch # rest"
proof -
  obtain r w1 where f: "fetchRemoteIndex w = (r, w1)" by (cases "fetchRemoteIndex w")
  obtain rest1 where l1: "io_log w1 = io_log w @ Fetch # rest1"
    using fetchRemoteIndex_log [of w] f by auto
  show ?thesis
  proof (cases r)
    case (Some index)
    then show ?thesis using f l1 by (simp add: refresh_def)
  next
    case None
    obtain r2 w2 where c: "loadCachedIndex w1 = (r2, w2)" by (cases "loadCachedIndex w1")
    obtain rest2 where l2: "io_log w2 = io_log w1 @ rest2"
      using loadCachedIndex_log [of w1] c by auto
    show ?thesis
      using None f c l1 l2 by (cases r2) (simp_all add: refresh_def)
  qed
qed

text \<open>
  The disk cache comes first: when it exists and parses, its value is the result and the
  bundled index is not looked at.
\<close>

lemma loadCachedIndex_disk_cache:
  assumes "cache_file w = Some (File (JsonText v))"
  shows "loadCachedIndex w
     = (v, w\<lparr>io_log := io_log w @ [ExistsSync CACHE_INDEX_PATH, ReadFileSync CACHE_INDEX_PATH]\<rparr>)"
  using assms by (simp add: loadCachedIndex_def emit_def)

text \<open>The bundled index is read when the disk cache is missing, unreadable or not JSON.\<close>

lemma loadCachedIndex_bundled:
  assumes "cache_file w = None \<or> cache_file w = Some Unreadable
           \<or> cache_file w = Some (File NotJson)"
    and "local_file w = Some (File (JsonText v))"
  shows "fst (loadCachedIndex w) = v"
  using assms by (auto simp: loadCachedIndex_def load_bundled_def emit_def)

text \<open>
  What the fallback yields is adopted with the current time, so that a later call within
  the hour answers from memory and leaves the world alone.
\<close>

lemma loadIndex_fallback_adopted:
  assumes "\<not> memory_fresh st now" and "fetchRemoteIndex w = (None, w1)"
    and "loadCachedIndex w1 = (Some index, w2)"
  shows "loadIndex st w now
           = (Inr index, st\<lparr>cachedIndex := Some index, lastFetchTime := now\<rparr>, w2)"
    and "now' - now < CACHE_TTL \<Longrightarrow>
         loadIndex (st\<lparr>cachedIndex := Some index, lastFetchTime := now\<rparr>) w' now'
           = (Inr index, st\<lparr>cachedIndex := Some index, lastFetchTime := now\<rparr>, w')"
  using assms
  by (auto simp: loadIndex_def refresh_def memory_fresh_def split: option.splits)

text \<open>The only error of \<open>loadIndex\<close>, and when it is raised.\<close>

lemma loadIndex_error_iff:
  "fst (loadIndex st w now) = Inl e \<longleftrightarrow>
     e = IndexUnavailable \<and> \<not> memory_fresh st now \<and> fst (fetchRemoteIndex w) = None
     \<and> fst (loadCachedIndex (snd (fetchRemoteIndex w))) = None"
  by (auto simp: loadIndex_def refresh_def memory_fresh_def split: option.splits prod.splits)

text \<open>
  The body of a response is written to the disk cache as soon as it has parsed, before
  \<open>loadIndex\<close> tests it: a body that parses to \<^verbatim>\<open>null\<close> replaces the index that
  the disk cache held, and the call fails although the bundled index is in place.
\<close>

lemma fetchRemoteIndex_writes_parsed_body:
  assumes "remote w = Response True (JsonText v)" and "cache_dir_exists w" and "write_ok w"
  shows "fst (fetchRemoteIndex w) = v
         \<and> cache_file (snd (fetchRemoteIndex w)) = Some (File (JsonText v))"
  using assms
  by (simp add: fetchRemoteIndex_def persist_def ensureCacheDir_def writeFileSync_def emit_def)

lemma loadIndex_null_body:
  "fst (loadIndex initial_state null_remote_world 1700000000000) = Inl IndexUnavailable
   \<and> cache_file null_remote_world = Some (File (JsonText (Some small_index)))
   \<and> cache_file (snd (snd (loadIndex initial_state null_remote_world 1700000000000)))
       = Some (File (JsonText None))"
  by (simp add: loadIndex_def refresh_def fetchRemoteIndex_def persist_def ensureCacheDir_def
      writeFileSync_def loadCachedIndex_def emit_def initial_state_def null_remote_world_def)

text \<open>
  C4 at a disk cache that holds the JSON text \<^verbatim>\<open>null\<close>. The memory cache is empty,
  the fetch is rejected, and the bundled index is in place. \<open>loadCachedIndex\<close> returns the
  parsed \<^verbatim>\<open>null\<close> at once: the bundled index is never looked at (the log ends with
  the read of the disk cache), nothing is adopted, and \<open>loadIndex\<close> raises its error.
\<close>

theorem loadIndex_null_disk_cache_skips_bundled:
  "loadIndex initial_state null_cache_world 1700000000000
     = (Inl IndexUnavailable, initial_state,
        null_cache_world\<lparr>io_log := [Fetch, ConsoleError, ExistsSync CACHE_INDEX_PATH,
                                     ReadFileSync CACHE_INDEX_PATH]\<rparr>)
   \<and> local_file null_cache_world = Some (File (JsonText (Some single_index)))"
  by (simp add: loadIndex_def refresh_def fetchRemoteIndex_def loadCachedIndex_def emit_def
      initial_state_def null_cache_world_def)

text \<open>
  C5 at the same kind of disk cache, with a stale memory cache. The bundled index would
  parse, and \<open>loadIndex\<close> raises its error all the same, keeping the stale index in memory.
\<close>

theorem loadIndex_error_with_usable_bundled:
  "\<not> memory_fresh warm_state 1700000000000
   \<and> fst (loadIndex warm_state null_cache_world 1700000000000) = Inl IndexUnavailable
   \<and> fst (snd (loadIndex warm_state null_cache_world 1700000000000)) = warm_state
   \<and> fst (load_bundled null_cache_world) = Some single_index"
  by (simp add: loadIndex_def refresh_def fetchRemoteIndex_def loadCachedIndex_def
      load_bundled_def emit_def memory_fresh_def CACHE_TTL_def warm_state_def
      null_cache_world_def)

text \<open>
  C9. After a fetch that yields an index, the copy to disk may fail in any way: the cache
  directory exists or not, \<^verbatim>\<open>mkdirSync\<close> succeeds or throws, \<^verbatim>\<open>writeFileSync\<close>
  succeeds or throws. In every case \<open>fetchRemoteIndex\<close> returns the index, and \<open>loadIndex\<close>
  caches it with the current time and returns it: the result is never an error.
\<close>

theorem loadIndex_persist_failure_swallowed:
  assumes "\<not> memory_fresh st now" and "remote w = Response True (JsonText (Some index))"
  shows "fst (fetchRemoteIndex (w\<lparr>cache_dir_exists := d, mkdir_ok := m, write_ok := k\<rparr>))
           = Some index
     \<and> fst (loadIndex st (w\<lparr>cache_dir_exists := d, mkdir_ok := m, write_ok := k\<rparr>) now)
           = Inr index
     \<and> fst (snd (loadIndex st (w\<lparr>cache_dir_exists := d, mkdir_ok := m, write_ok := k\<rparr>) now))
           = st\<lparr>cachedIndex := Some index, lastFetchTime := now\<rparr>"
  using assms
  by (auto simp: loadIndex_def refresh_def memory_fresh_def fetchRemoteIndex_def emit_def
      Let_def split: option.splits prod.splits)

theorem loadIndex_persist_failure_swallowed_witness:
  "\<not> memory_fresh initial_state 1700000000000
   \<and> remote readonly_world = Response True (JsonText (Some small_index))
   \<and> fst (fetchRemoteIndex
            (readonly_world\<lparr>cache_dir_exists := False, mkdir_ok := False, write_ok := False\<rparr>))
        = Some small_index
   \<and> fst (loadIndex initial_state
            (readonly_world\<lparr>cache_dir_exists := False, mkdir_ok := False, write_ok := False\<rparr>)
            1700000000000)
        = Inr small_index
   \<and> fst (snd (loadIndex initial_state
            (readonly_world\<lparr>cache_dir_exists := False, mkdir_ok := False, write_ok := False\<rparr>)
            1700000000000))
        = initial_state\<lparr>cachedIndex := Some small_index, lastFetchTime := 1700000000000\<rparr>"
proof -
  have h1: "\<not> memory_fresh initial_state 1700000000000"
    by (simp add: memory_fresh_def initial_state_def)
  have h2: "remote readonly_world = Response True (JsonText (Some small_index))"
    by (simp add: readonly_world_def)
  show ?thesis
    by (rule conjI [OF h1 conjI [OF h2
          loadIndex_persist_failure_swallowed [OF h1 h2, of False False False]]])
qed

subsection \<open>The synchronous accessor\<close>

text \<open>A state with an empty memory cache has never been stamped.\<close>

lemma reachable_empty_cache:
  "reachable st \<Longrightarrow> cachedIndex st = None \<Longrightarrow> lastFetchTime st = 0"
proof (induction rule: reachable.induct)
  case start
  then show ?case by (simp add: initial_state_def)
next
  case (after_loadIndex st w now)
  then show ?case
    by (auto simp: loadIndex_def refresh_def split: option.splits prod.splits if_splits)
next
  case (after_loadIndexSync st w)
  then show ?case
    by (auto simp: loadIndexSync_def split: option.splits prod.splits if_splits)
qed

text \<open>
  C10, with the clock made explicit. From a reachable state with an empty memory cache,
  when the disk sources yield an index, \<open>loadIndexSync\<close> caches that index and leaves
  \<open>lastFetchTime\<close> at its initial 0. A following \<open>loadIndex\<close>, in any world \<open>w2\<close> and at a
  clock reading of at least one hour (\<open>CACHE_TTL\<close> milliseconds past the epoch), does not
  answer from memory: it refreshes, and the first thing it does is the fetch. When that
  refresh falls back to disk it stamps the current time, which \<open>loadIndexSync\<close> did not.
\<close>

theorem loadIndexSync_keeps_lastFetchTime:
  assumes "reachable st" and "cachedIndex st = None"
    and "loadCachedIndex w = (Some index, w1)"
    and "CACHE_TTL \<le> now"
  shows "\<exists>st1. loadIndexSync st w = (Inr index, st1, w1)
       \<and> cachedIndex st1 = Some index
       \<and> lastFetchTime st1 = lastFetchTime st \<and> lastFetchTime st1 = 0
       \<and> loadIndex st1 w2 now = refresh st1 w2 now
       \<and> (\<exists>rest. io_log (snd (snd (loadIndex st1 w2 now))) = io_log w2 @ Fetch # rest)
       \<and> (\<forall>w3 w4 fallbackIndex.
             fetchRemoteIndex w2 = (None, w3) \<and> loadCachedIndex w3 = (Some fallbackIndex, w4) \<longrightarrow>
             lastFetchTime (fst (snd (loadIndex st1 w2 now))) = now)"
proof -
  define st1 where "st1 = st\<lparr>cachedIndex := Some index\<rparr>"
  have zero: "lastFetchTime st = 0"
    using assms(1,2) by (rule reachable_empty_cache)
  have sync: "loadIndexSync st w = (Inr index, st1, w1)"
    using assms(2,3) by (simp add: loadIndexSync_def st1_def)
  have c: "cachedIndex st1 = Some index" and t: "lastFetchTime st1 = lastFetchTime st"
    by (simp_all add: st1_def)
  have again: "loadIndex st1 w2 now = refresh st1 w2 now"
    using assms(4) zero by (simp add: loadIndex_def st1_def)
  have log: "\<exists>rest. io_log (snd (snd (loadIndex st1 w2 now))) = io_log w2 @ Fetch # rest"
    unfolding again by (rule refresh_log)
  have stamp: "lastFetchTime (fst (snd (loadIndex st1 w2 now))) = now"
    if "fetchRemoteIndex w2 = (None, w3)" "loadCachedIndex w3 = (Some fallbackIndex, w4)"
    for w3 w4 fallbackIndex
    unfolding again using that by (simp add: refresh_def)
  from sync c t zero again log stamp show ?thesis
    by (intro exI [of _ st1]) auto
qed

theorem loadIndexSync_keeps_lastFetchTime_witness:
  "reachable initial_state \<and> cachedIndex initial_state = None
   \<and> loadCachedIndex disk_cache_world
       = (Some small_index,
          disk_cache_world\<lparr>io_log := [ExistsSync CACHE_INDEX_PATH,
                                        ReadFileSync CACHE_INDEX_PATH]\<rparr>)
   \<and> CACHE_TTL \<le> 1700000000000
   \<and> (\<exists>st1. loadIndexSync initial_state disk_cache_world
               = (Inr small_index, st1,
                  disk_cache_world\<lparr>io_log := [ExistsSync CACHE_INDEX_PATH,
                                                ReadFileSync CACHE_INDEX_PATH]\<rparr>)
       \<and> cachedIndex st1 = Some small_index
       \<and> lastFetchTime st1 = lastFetchTime initial_state \<and> lastFetchTime st1 = 0
       \<and> loadIndex st1 offline_world 1700000000000 = refresh st1 offline_world 1700000000000
       \<and> (\<exists>rest. io_log (snd (snd (loadIndex st1 offline_world 1700000000000)))
                    = io_log offline_world @ Fetch # rest)
       \<and> (\<forall>w3 w4 fallbackIndex.
             fetchRemoteIndex offline_world = (None, w3)
             \<and> loadCachedIndex w3 = (Some fallbackIndex, w4) \<longrightarrow>
             lastFetchTime (fst (snd (loadIndex st1 offline_world 1700000000000)))
               = 1700000000000))"
proof -
  have h1: "reachable initial_state" by (rule reachable.start)
  have h2: "cachedIndex initial_state = None" by (simp add: initial_state_def)
  have h3: "loadCachedIndex disk_cache_world
       = (Some small_index,
          disk_cache_world\<lparr>io_log := [ExistsSync CACHE_INDEX_PATH,
                                        ReadFileSync CACHE_INDEX_PATH]\<rparr>)"
    by (simp add: loadCachedIndex_def emit_def disk_cache_world_def)
  have h4: "CACHE_TTL \<le> 1700000000000" by (simp add: CACHE_TTL_def)
  show ?thesis
    by (rule conjI [OF h1 conjI [OF h2 conjI [OF h3 conjI [OF h4
          loadIndexSync_keeps_lastFetchTime [OF h1 h2 h3 h4, of offline_world]]]]])
qed

text \<open>
  C10 as the claim states it, with no condition on the clock, fails. From the initial state
  \<open>loadIndexSync\<close> caches the index of the disk cache and leaves \<open>lastFetchTime\<close> at 0; a
  following \<open>loadIndex\<close> at clock reading 1000 finds \<open>1000 - 0 < CACHE_TTL\<close>, answers from
  memory and leaves the world as it is: no fetch is attempted.
\<close>

theorem loadIndexSync_then_loadIndex_early_clock:
  "loadIndexSync initial_state disk_cache_world
     = (Inr small_index, \<lparr>cachedIndex = Some small_index, lastFetchTime = 0\<rparr>,
        disk_cache_world\<lparr>io_log := [ExistsSync CACHE_INDEX_PATH,
                                      ReadFileSync CACHE_INDEX_PATH]\<rparr>)
   \<and> loadIndex \<lparr>cachedIndex = Some small_index, lastFetchTime = 0\<rparr>
        (disk_cache_world\<lparr>io_log := [ExistsSync CACHE_INDEX_PATH,
                                      ReadFileSync CACHE_INDEX_PATH]\<rparr>) 1000
     = (Inr small_index, \<lparr>cachedIndex = Some small_index, lastFetchTime = 0\<rparr>,
        disk_cache_world\<lparr>io_log := [ExistsSync CACHE_INDEX_PATH,
                                      ReadFileSync CACHE_INDEX_PATH]\<rparr>)
   \<and> Fetch \<notin> set [ExistsSync CACHE_INDEX_PATH, ReadFileSync CACHE_INDEX_PATH]"
  by (simp add: loadIndexSync_def loadIndex_def loadCachedIndex_def emit_def initial_state_def
      disk_cache_world_def CACHE_TTL_def)

subsection \<open>Ranked search\<close>

lemma insort_key_map:
  "insort_key f (g x) (map g xs) = map g (insort_key (\<lambda>a. f (g a)) x xs)"
  by (induction xs) auto

lemma sort_key_map: "sort_key f (map g xs) = map g (sort_key (\<lambda>a. f (g a)) xs)"
  by (induction xs) (auto simp: insort_key_map)

text \<open>For a limit that is a natural number, \<open>slice0\<close> keeps the first \<open>n\<close> elements.\<close>

lemma slice0_nat: "slice0 xs (int n) = take n xs"
  by (simp add: slice0_def Let_def min_def)

lemma search_index_eq:
  "search_index index query limit =
     slice0 (sort_key (\<lambda>e. - doc_score query e)
               (filter (\<lambda>e. 0 < doc_score query e) (entries index))) limit"
  by (simp add: search_index_def Let_def sort_by_score_def filter_map sort_key_map comp_def
      doc_score_def slice0_def take_map)

lemma ranked_props:
  fixes index query
  defines "ranked \<equiv> sort_key (\<lambda>e. - doc_score query e)
                      (filter (\<lambda>e. 0 < doc_score query e) (entries index))"
  shows "mset ranked = mset (filter (\<lambda>e. 0 < doc_score query e) (entries index))"
    and "sorted_wrt (\<lambda>a b. doc_score query a \<ge> doc_score query b) ranked"
    and "filter (\<lambda>e. doc_score query e = k) ranked
         = filter (\<lambda>e. doc_score query e = k \<and> 0 < k) (entries index)"
proof -
  show "mset ranked = mset (filter (\<lambda>e. 0 < doc_score query e) (entries index))"
    by (simp add: ranked_def)
  have "sorted (map (\<lambda>e. - doc_score query e) ranked)"
    unfolding ranked_def by (rule sorted_sort_key)
  then show "sorted_wrt (\<lambda>a b. doc_score query a \<ge> doc_score query b) ranked"
    by (simp add: sorted_wrt_map)
  have "filter (\<lambda>e. - doc_score query e = - k) ranked
        = filter (\<lambda>e. - doc_score query e = - k)
            (filter (\<lambda>e. 0 < doc_score query e) (entries index))"
    unfolding ranked_def by (rule sort_key_stable)
  then show "filter (\<lambda>e. doc_score query e = k) ranked
             = filter (\<lambda>e. doc_score query e = k \<and> 0 < k) (entries index)"
    by (simp add: conj_commute cong: conj_cong filter_cong)
qed

text \<open>
  C3. Let \<open>loadIndex\<close> yield \<open>index\<close>. There is a list \<open>ranked\<close> that holds exactly the entries
  of the index whose score is positive (each as often as the index has it), in descending
  order of score, entries of equal score in the order of the index. For a limit \<open>limit\<close>
  (a natural number) \<open>searchDocs\<close> returns the first \<open>limit\<close> elements of \<open>ranked\<close>, so at
  most \<open>limit\<close> entries; with the limit omitted it returns the first 20. When no entry has a
  positive score the result is the empty list, not an error.
\<close>

theorem searchDocs_ranked_and_truncated:
  fixes limit :: nat
  assumes "loadIndex st w now = (Inr index, st', w')"
  shows "\<exists>ranked.
       mset ranked = mset (filter (\<lambda>e. 0 < doc_score query e) (entries index))
     \<and> sorted_wrt (\<lambda>a b. doc_score query a \<ge> doc_score query b) ranked
     \<and> (\<forall>k. filter (\<lambda>e. doc_score query e = k) ranked
              = filter (\<lambda>e. doc_score query e = k \<and> 0 < k) (entries index))
     \<and> searchDocs st w now query (Some (int limit)) = (Inr (take limit ranked), st', w')
     \<and> searchDocs st w now query None = (Inr (take 20 ranked), st', w')
     \<and> length (take limit ranked) \<le> limit
     \<and> ((\<forall>e\<in>set (entries index). \<not> 0 < doc_score query e) \<longrightarrow>
          searchDocs st w now query (Some (int limit)) = (Inr [], st', w'))"
proof -
  define ranked where
    "ranked = sort_key (\<lambda>e. - doc_score query e)
                (filter (\<lambda>e. 0 < doc_score query e) (entries index))"
  have some: "searchDocs st w now query (Some (int limit)) = (Inr (take limit ranked), st', w')"
    using assms by (simp add: searchDocs_def search_index_eq slice0_nat ranked_def)
  have "slice0 ranked 20 = take 20 ranked"
    using slice0_nat [of ranked 20] by simp
  then have none: "searchDocs st w now query None = (Inr (take 20 ranked), st', w')"
    using assms by (simp add: searchDocs_def search_index_eq ranked_def)
  have empty: "ranked = []" if "\<forall>e\<in>set (entries index). \<not> 0 < doc_score query e"
    using that by (simp add: ranked_def filter_False)
  show ?thesis
    apply (rule exI [of _ ranked])
    using some none empty ranked_props [where index = index and query = query, folded ranked_def]
    by simp
qed

theorem searchDocs_ranked_and_truncated_witness:
  "loadIndex warm_state offline_world 6000 = (Inr small_index, warm_state, offline_world)
   \<and> (\<exists>ranked.
       mset ranked = mset (filter (\<lambda>e. 0 < doc_score ''gpt-4o'' e) (entries small_index))
     \<and> sorted_wrt (\<lambda>a b. doc_score ''gpt-4o'' a \<ge> doc_score ''gpt-4o'' b) ranked
     \<and> (\<forall>k. filter (\<lambda>e. doc_score ''gpt-4o'' e = k) ranked
              = filter (\<lambda>e. doc_score ''gpt-4o'' e = k \<and> 0 < k) (entries small_index))
     \<and> searchDocs warm_state offline_world 6000 ''gpt-4o'' (Some (int 2))
          = (Inr (take 2 ranked), warm_state, offline_world)
     \<and> searchDocs warm_state offline_world 6000 ''gpt-4o'' None
          = (Inr (take 20 ranked), warm_state, offline_world)
     \<and> length (take 2 ranked) \<le> 2
     \<and> ((\<forall>e\<in>set (entries small_index). \<not> 0 < doc_score ''gpt-4o'' e) \<longrightarrow>
          searchDocs warm_state offline_world 6000 ''gpt-4o'' (Some (int 2))
            = (Inr [], warm_state, offline_world)))
   \<and> fst (searchDocs warm_state offline_world 6000 ''gpt-4o'' (Some 2))
       = Inr [gpt4o_entry, gpt4o_image_entry]
   \<and> fst (searchDocs warm_state offline_world 6000 ''gpt-4o'' None)
       = Inr [gpt4o_entry, gpt4o_image_entry, claude_entry]
   \<and> fst (searchDocs warm_state offline_world 6000 ''billing invoice'' None) = Inr [guide_entry]
   \<and> fst (searchDocs warm_state offline_world 6000 ''midjourney'' None) = Inr []"
proof -
  have h: "loadIndex warm_state offline_world 6000 = (Inr small_index, warm_state, offline_world)"
    by (simp add: loadIndex_def warm_state_def CACHE_TTL_def)
  have c: "fst (searchDocs warm_state offline_world 6000 ''gpt-4o'' (Some 2))
       = Inr [gpt4o_entry, gpt4o_image_entry]
   \<and> fst (searchDocs warm_state offline_world 6000 ''gpt-4o'' None)
       = Inr [gpt4o_entry, gpt4o_image_entry, claude_entry]
   \<and> fst (searchDocs warm_state offline_world 6000 ''billing invoice'' None) = Inr [guide_entry]
   \<and> fst (searchDocs warm_state offline_world 6000 ''midjourney'' None) = Inr []"
    by code_simp
  show ?thesis
    by (rule conjI [OF h conjI [OF
          searchDocs_ranked_and_truncated [OF h, of "''gpt-4o''" 2] c]])
qed

subsection \<open>Lookup by path\<close>

text \<open>
  C6. Let \<open>loadIndex\<close> yield \<open>index\<close>. \<open>getDocContent\<close> fails exactly when no entry of the
  index has a path equal to the argument, and then the error is the not-found error, which
  is its only error. When it succeeds it returns the content of an entry whose path equals
  the argument, with that entry as metadata: the first such entry of the index. Paths are
  compared as they are; nothing normalises them.
\<close>

theorem getDocContent_exact_path:
  assumes "loadIndex st w now = (Inr index, st', w')"
  shows "(fst (getDocContent st w now docPath) = Inl (DocumentNotFound docPath)
            \<longleftrightarrow> (\<forall>e\<in>set (entries index). path e \<noteq> docPath))
     \<and> (\<forall>err. fst (getDocContent st w now docPath) = Inl err \<longrightarrow> err = DocumentNotFound docPath)
     \<and> (\<forall>r. fst (getDocContent st w now docPath) = Inr r \<longrightarrow>
            (\<exists>e\<in>set (entries index). path e = docPath \<and> doc_content r = content e
                \<and> metadata r = Some e))
     \<and> (\<forall>i. i < length (entries index) \<and> path (entries index ! i) = docPath
              \<and> (\<forall>j<i. path (entries index ! j) \<noteq> docPath) \<longrightarrow>
            getDocContent st w now docPath
              = (Inr \<lparr>doc_content = content (entries index ! i),
                      metadata = Some (entries index ! i)\<rparr>, st', w'))"
proof (cases "find (\<lambda>e. path e = docPath) (entries index)")
  case None
  then have "\<forall>e\<in>set (entries index). path e \<noteq> docPath"
    by (simp add: find_None_iff)
  then show ?thesis
    using assms None by (auto simp: getDocContent_def)
next
  case (Some entry)
  then obtain i where i: "i < length (entries index)" "path (entries index ! i) = docPath"
    "entry = entries index ! i" "\<forall>j<i. path (entries index ! j) \<noteq> docPath"
    by (auto simp: find_Some_iff)
  have uniq: "i' = i" if "i' < length (entries index)" "path (entries index ! i') = docPath"
      "\<forall>j<i'. path (entries index ! j) \<noteq> docPath" for i'
  proof (rule ccontr)
    assume "i' \<noteq> i"
    then consider "i' < i" | "i < i'" by linarith
    then show False using that i by cases auto
  qed
  have mem: "entry \<in> set (entries index)" using i by simp
  have res: "getDocContent st w now docPath
      = (Inr \<lparr>doc_content = content entry, metadata = Some entry\<rparr>, st', w')"
    using assms Some by (simp add: getDocContent_def)
  have a: "fst (getDocContent st w now docPath) \<noteq> Inl (DocumentNotFound docPath)"
    using res by simp
  have b: "\<not> (\<forall>e\<in>set (entries index). path e \<noteq> docPath)"
    using mem i by auto
  have c: "\<forall>err. fst (getDocContent st w now docPath) = Inl err \<longrightarrow>
             err = DocumentNotFound docPath"
    using res by simp
  have d: "\<forall>r. fst (getDocContent st w now docPath) = Inr r \<longrightarrow>
            (\<exists>e\<in>set (entries index). path e = docPath \<and> doc_content r = content e
                \<and> metadata r = Some e)"
    using res mem i by auto
  have e: "\<forall>i. i < length (entries index) \<and> path (entries index ! i) = docPath
              \<and> (\<forall>j<i. path (entries index ! j) \<noteq> docPath) \<longrightarrow>
            getDocContent st w now docPath
              = (Inr \<lparr>doc_content = content (entries index ! i),
                      metadata = Some (entries index ! i)\<rparr>, st', w')"
    using res i(3) uniq by blast
  show ?thesis
    using a b c d e by blast
qed

theorem getDocContent_exact_path_witness:
  "loadIndex initial_state offline_world 1700000000000
     = (Inr single_index,
        \<lparr>cachedIndex = Some single_index, lastFetchTime = 1700000000000\<rparr>,
        offline_world\<lparr>io_log := [Fetch, ConsoleError, ExistsSync CACHE_INDEX_PATH,
                                   ExistsSync LOCAL_INDEX_PATH, ReadFileSync LOCAL_INDEX_PATH]\<rparr>)
   \<and> getDocContent initial_state offline_world 1700000000000 ''docs/OpenAI/gpt-4o/chat''
     = (Inr \<lparr>doc_content = ''# chat'', metadata = Some gpt4o_entry\<rparr>,
        \<lparr>cachedIndex = Some single_index, lastFetchTime = 1700000000000\<rparr>,
        offline_world\<lparr>io_log := [Fetch, ConsoleError, ExistsSync CACHE_INDEX_PATH,
                                   ExistsSync LOCAL_INDEX_PATH, ReadFileSync LOCAL_INDEX_PATH]\<rparr>)
   \<and> fst (getDocContent initial_state offline_world 1700000000000 ''nonexistent'')
     = Inl (DocumentNotFound ''nonexistent'')
   \<and> fst (getDocContent initial_state offline_world 1700000000000 ''docs/openai/gpt-4o/chat'')
     = Inl (DocumentNotFound ''docs/openai/gpt-4o/chat'')"
proof -
  have h: "loadIndex initial_state offline_world 1700000000000
     = (Inr single_index,
        \<lparr>cachedIndex = Some single_index, lastFetchTime = 1700000000000\<rparr>,
        offline_world\<lparr>io_log := [Fetch, ConsoleError, ExistsSync CACHE_INDEX_PATH,
                                   ExistsSync LOCAL_INDEX_PATH, ReadFileSync LOCAL_INDEX_PATH]\<rparr>)"
    by (simp add: loadIndex_def refresh_def fetchRemoteIndex_def loadCachedIndex_def
        load_bundled_def emit_def initial_state_def offline_world_def)
  have first: "0 < length (entries single_index)
      \<and> path (entries single_index ! 0) = ''docs/OpenAI/gpt-4o/chat''
      \<and> (\<forall>j<0. path (entries single_index ! j) \<noteq> ''docs/OpenAI/gpt-4o/chat'')"
    by (simp add: single_index_def gpt4o_entry_def)
  have found: "getDocContent initial_state offline_world 1700000000000 ''docs/OpenAI/gpt-4o/chat''
     = (Inr \<lparr>doc_content = ''# chat'', metadata = Some gpt4o_entry\<rparr>,
        \<lparr>cachedIndex = Some single_index, lastFetchTime = 1700000000000\<rparr>,
        offline_world\<lparr>io_log := [Fetch, ConsoleError, ExistsSync CACHE_INDEX_PATH,
                                   ExistsSync LOCAL_INDEX_PATH, ReadFileSync LOCAL_INDEX_PATH]\<rparr>)"
    using getDocContent_exact_path [OF h, of "''docs/OpenAI/gpt-4o/chat''"] first
    by (simp add: single_index_def gpt4o_entry_def)
  have none1: "\<forall>e\<in>set (entries single_index). path e \<noteq> ''nonexistent''"
    by (simp add: single_index_def gpt4o_entry_def)
  have missing1: "fst (getDocContent initial_state offline_world 1700000000000 ''nonexistent'')
     = Inl (DocumentNotFound ''nonexistent'')"
    using getDocContent_exact_path [OF h, of "''nonexistent''"] none1 by blast
  have none2: "\<forall>e\<in>set (entries single_index). path e \<noteq> ''docs/openai/gpt-4o/chat''"
    by (simp add: single_index_def gpt4o_entry_def)
  have missing2:
    "fst (getDocContent initial_state offline_world 1700000000000 ''docs/openai/gpt-4o/chat'')
     = Inl (DocumentNotFound ''docs/openai/gpt-4o/chat'')"
    using getDocContent_exact_path [OF h, of "''docs/openai/gpt-4o/chat''"] none2 by blast
  show ?thesis
    by (rule conjI [OF h conjI [OF found conjI [OF missing1 missing2]]])
qed

subsection \<open>Listing by vendor\<close>

text \<open>
  The grouping step on association lists: which keys it leaves, and what it leaves under a
  key.
\<close>

lemma keys_map_get_add [simp]: "map fst (map_get_add m k x) = map fst m"
  by (induction m) (auto simp: map_get_add_def)

lemma map_of_map_get_add:
  "map_of (map_get_add m k x) k' = (if k' = k then map_option (set_add x) (map_of m k) else map_of m k')"
  by (induction m) (auto simp: map_get_add_def)

lemma keys_collect:
  "map fst (collect p m) = (if fst p \<in> set (map fst m) then map fst m else map fst m @ [fst p])"
  by (auto simp: collect_def map_has_def map_set_new_def Let_def split: option.splits)

lemma map_of_collect:
  "map_of (collect p m) k =
     (if k = fst p then Some (add_item (snd p) (case map_of m k of None \<Rightarrow> [] | Some s \<Rightarrow> s))
      else map_of m k)"
proof (cases "map_has m (fst p)")
  case True
  then obtain s where s: "map_of m (fst p) = Some s"
    by (cases "map_of m (fst p)") (auto simp: map_has_def map_of_eq_None_iff)
  have "collect p m = (case snd p of None \<Rightarrow> m | Some x \<Rightarrow> map_get_add m (fst p) x)"
    using True by (simp add: collect_def)
  then show ?thesis
    using s by (cases "snd p") (simp_all add: add_item_def map_of_map_get_add)
next
  case False
  then have none: "map_of m (fst p) = None"
    by (simp add: map_has_def map_of_eq_None_iff)
  then have new: "map_of (map_set_new m (fst p)) k' = (if k' = fst p then Some [] else map_of m k')"
    for k'
    by (auto simp: map_set_new_def map_add_def split: option.splits)
  have "collect p m = (case snd p of None \<Rightarrow> map_set_new m (fst p)
                       | Some x \<Rightarrow> map_get_add (map_set_new m (fst p)) (fst p) x)"
    using False by (simp add: collect_def Let_def)
  then show ?thesis
    using none new by (cases "snd p") (simp_all add: add_item_def map_of_map_get_add)
qed

lemma distinct_keys_collect: "distinct (map fst m) \<Longrightarrow> distinct (map fst (collect p m))"
  by (simp add: keys_collect)

lemma keys_fold_collect:
  "distinct (map fst m) \<Longrightarrow>
     distinct (map fst (fold collect ps m))
     \<and> set (map fst (fold collect ps m)) = set (map fst m) \<union> fst ` set ps"
proof (induction ps arbitrary: m)
  case Nil
  then show ?case by simp
next
  case (Cons p ps)
  have "distinct (map fst (collect p m))" using Cons.prems by (rule distinct_keys_collect)
  from Cons.IH [OF this] show ?case
    by (auto simp: keys_collect)
qed

lemma set_add_props [simp]: "set (set_add x s) = insert x (set s)" "distinct (set_add x s) = distinct s"
  by (auto simp: set_add_def)

lemma add_item_props:
  "set (add_item xo s) = set s \<union> set_option xo" "distinct (add_item xo s) = distinct s"
  by (auto simp: add_item_def split: option.splits)

lemma values_fold_collect:
  "map_of (fold collect ps m) k = Some s' \<Longrightarrow>
     set s' = (case map_of m k of None \<Rightarrow> {} | Some s \<Rightarrow> set s) \<union> {x. (k, Some x) \<in> set ps}
     \<and> ((\<forall>s. map_of m k = Some s \<longrightarrow> distinct s) \<longrightarrow> distinct s')"
proof (induction ps arbitrary: m)
  case Nil
  then show ?case by simp
next
  case (Cons p ps)
  obtain k0 xo where p: "p = (k0, xo)" by (cases p)
  from Cons.prems have "map_of (fold collect ps (collect p m)) k = Some s'" by simp
  note ih = Cons.IH [OF this]
  show ?case
  proof (cases "k = k0")
    case True
    define old where "old = (case map_of m k of None \<Rightarrow> [] | Some s \<Rightarrow> s)"
    have look: "map_of (collect p m) k = Some (add_item xo old)"
      using True p by (simp add: map_of_collect old_def)
    have sets: "{x. (k, Some x) \<in> set (p # ps)} = set_option xo \<union> {x. (k, Some x) \<in> set ps}"
      using True p by (cases xo) auto
    have old_set: "set old = (case map_of m k of None \<Rightarrow> {} | Some s \<Rightarrow> set s)"
      by (simp add: old_def split: option.splits)
    have old_dist: "distinct old" if "\<forall>s. map_of m k = Some s \<longrightarrow> distinct s"
      using that by (cases "map_of m k") (simp_all add: old_def)
    have s1: "set s' = set old \<union> (set_option xo \<union> {x. (k, Some x) \<in> set ps})"
      using ih unfolding look by (simp add: add_item_props Un_assoc)
    have ih2: "distinct (add_item xo old) \<longrightarrow> distinct s'"
      using ih unfolding look by simp
    have s2: "(\<forall>s. map_of m k = Some s \<longrightarrow> distinct s) \<longrightarrow> distinct s'"
    proof
      assume "\<forall>s. map_of m k = Some s \<longrightarrow> distinct s"
      then have "distinct old" by (rule old_dist)
      then have "distinct (add_item xo old)" by (simp add: add_item_props)
      with ih2 show "distinct s'" by simp
    qed
    show ?thesis
      unfolding sets old_set [symmetric] using s1 s2 by (rule conjI)
  next
    case False
    then have look: "map_of (collect p m) k = map_of m k"
      using p by (simp add: map_of_collect)
    have sets: "{x. (k, Some x) \<in> set (p # ps)} = {x. (k, Some x) \<in> set ps}"
      using False p by auto
    from ih show ?thesis
      unfolding look sets .
  qed
qed

lemma fold_collect_empty:
  assumes "(k, s) \<in> set (fold collect ps [])"
  shows "distinct s \<and> set s = {x. (k, Some x) \<in> set ps}"
proof -
  have "distinct (map fst (fold collect ps []))"
    using keys_fold_collect [of "[]" ps] by simp
  with assms have "map_of (fold collect ps []) k = Some s" by simp
  from values_fold_collect [OF this] show ?thesis by simp
qed

lemma collect_capability_eq:
  "collect_capability e = collect (model e, if capability e \<noteq> [] then Some (capability e) else None)"
  by (rule ext) (simp add: collect_capability_def collect_def Let_def)

lemma fold_collect_capability:
  "fold collect_capability es m
     = fold collect (map (\<lambda>e. (model e, if capability e \<noteq> [] then Some (capability e) else None)) es) m"
  by (induction es arbitrary: m) (simp_all add: collect_capability_eq)



lemma list_index_given:
  assumes "v \<noteq> []"
  shows "list_index index (Some v) =
     \<lparr>list_vendors = [v],
      apis = map (\<lambda>(m, caps). \<lparr>api_vendor = (case vendor_entries index v of [] \<Rightarrow> v
                                                 | e # _ \<Rightarrow> if vendor e \<noteq> [] then vendor e else v),
                                 api_model = m, capabilities = sort caps\<rparr>)
               (fold collect_capability (vendor_entries index v) [])\<rparr>"
proof -
  have "filter (\<lambda>e. toLowerCase (vendor e) = toLowerCase v \<and> category e = ''api'') (entries index)
        = vendor_entries index v"
    unfolding vendor_entries_def by (rule filter_cong) auto
  then show ?thesis
    using assms by (simp add: list_index_def Let_def)
qed


text \<open>
  C7, for a vendor that is not the empty string. Let \<open>loadIndex\<close> yield \<open>index\<close>, and let
  a non-empty vendor \<open>v\<close> be given: the source tests \<^verbatim>\<open>if (vendor)\<close>, which holds for
  every string but the empty one. The entries kept are
  those of category \<open>api\<close> whose vendor equals \<open>v\<close> up to case (\<open>vendor_entries\<close>).
  \<open>listApis\<close> returns the vendor list \<open>[v]\<close> and one record for each distinct model of the
  kept entries; the capabilities of a record are the distinct non-empty capabilities of
  the kept entries of its model, in ascending order, and its vendor is the vendor of the
  first kept entry. When no entry is kept the list of records is empty, and the result is
  still not an error.
\<close>

theorem listApis_given_vendor:
  assumes "loadIndex st w now = (Inr index, st', w')" and "v \<noteq> []"
  shows "\<exists>r. listApis st w now (Some v) = (Inr r, st', w')
     \<and> list_vendors r = [v]
     \<and> distinct (map api_model (apis r))
     \<and> set (map api_model (apis r)) = model ` set (vendor_entries index v)
     \<and> (\<forall>a\<in>set (apis r).
           capabilities a = sorted_list_of_set
             {capability e |e. e \<in> set (vendor_entries index v) \<and> model e = api_model a
                               \<and> capability e \<noteq> []})
     \<and> (\<forall>e es. vendor_entries index v = e # es \<longrightarrow> (\<forall>a\<in>set (apis r). api_vendor a = vendor e))
     \<and> (vendor_entries index v = [] \<longrightarrow> apis r = [])"
proof -
  define M where "M = vendor_entries index v"
  define ps where
    "ps = map (\<lambda>e. (model e, if capability e \<noteq> [] then Some (capability e) else None)) M"
  define mm where "mm = fold collect ps []"
  define shown where
    "shown = (case M of [] \<Rightarrow> v | e # _ \<Rightarrow> if vendor e \<noteq> [] then vendor e else v)"
  define mk where
    "mk = (\<lambda>(m, caps). \<lparr>api_vendor = shown, api_model = m, capabilities = sort caps\<rparr>)"
  define r where "r = \<lparr>list_vendors = [v], apis = map mk mm\<rparr>"
  have r: "list_index index (Some v) = r"
    using assms(2)
    by (simp add: list_index_given r_def mk_def shown_def mm_def ps_def M_def
        fold_collect_capability)
  have res: "listApis st w now (Some v) = (Inr r, st', w')"
    using assms(1) r by (simp add: listApis_def)
  have models: "map api_model (apis r) = map fst mm"
    by (simp add: r_def mk_def case_prod_beta comp_def)
  have keys: "distinct (map fst mm)" "set (map fst mm) = fst ` set ps"
    using keys_fold_collect [of "[]" ps] by (simp_all add: mm_def)
  have fst_ps: "fst ` set ps = model ` set M"
    by (force simp: ps_def)
  have caps: "capabilities a = sorted_list_of_set
      {capability e |e. e \<in> set M \<and> model e = api_model a \<and> capability e \<noteq> []}"
    if "a \<in> set (apis r)" for a
  proof -
    from that obtain k s where ks: "(k, s) \<in> set mm" and a: "a = mk (k, s)"
      by (auto simp: r_def)
    from fold_collect_empty [OF ks [unfolded mm_def]]
    have d: "distinct s" and s: "set s = {x. (k, Some x) \<in> set ps}" by simp_all
    have "{x. (k, Some x) \<in> set ps}
          = {capability e |e. e \<in> set M \<and> model e = k \<and> capability e \<noteq> []}"
      by (auto simp: ps_def split: if_splits)
    with s have "set s = {capability e |e. e \<in> set M \<and> model e = k \<and> capability e \<noteq> []}"
      by simp
    moreover have "sort s = sorted_list_of_set (set s)"
      using d by (simp add: sorted_list_of_set_sort_remdups distinct_remdups_id)
    ultimately show ?thesis
      by (simp add: a mk_def)
  qed
  have vend: "api_vendor a = vendor e" if "M = e # es" "a \<in> set (apis r)" for e es a
  proof -
    have "e \<in> set M" using that(1) by simp
    then have "toLowerCase (vendor e) = toLowerCase v"
      by (simp add: M_def vendor_entries_def)
    with assms(2) have "vendor e \<noteq> []"
      by (metis toLowerCase_Nil_iff)
    then have "shown = vendor e" using that(1) by (simp add: shown_def)
    with that(2) show ?thesis by (auto simp: r_def mk_def)
  qed
  have none: "apis r = []" if "M = []"
    using that by (simp add: r_def mm_def ps_def)
  have vendors: "list_vendors r = [v]"
    by (simp add: r_def)
  have dist: "distinct (map api_model (apis r))"
    unfolding models by (rule keys(1))
  have range: "set (map api_model (apis r)) = model ` set M"
    unfolding models keys(2) by (rule fst_ps)
  from res vendors dist range caps vend none show ?thesis
    unfolding M_def by blast
qed

theorem listApis_given_vendor_witness:
  "loadIndex warm_state offline_world 6000 = (Inr small_index, warm_state, offline_world)
   \<and> ''openai'' \<noteq> []
   \<and> (\<exists>r. listApis warm_state offline_world 6000 (Some ''openai'')
               = (Inr r, warm_state, offline_world)
     \<and> list_vendors r = [''openai'']
     \<and> distinct (map api_model (apis r))
     \<and> set (map api_model (apis r)) = model ` set (vendor_entries small_index ''openai'')
     \<and> (\<forall>a\<in>set (apis r).
           capabilities a = sorted_list_of_set
             {capability e |e. e \<in> set (vendor_entries small_index ''openai'')
                               \<and> model e = api_model a \<and> capability e \<noteq> []})
     \<and> (\<forall>e es. vendor_entries small_index ''openai'' = e # es \<longrightarrow>
           (\<forall>a\<in>set (apis r). api_vendor a = vendor e))
     \<and> (vendor_entries small_index ''openai'' = [] \<longrightarrow> apis r = []))
   \<and> fst (listApis warm_state offline_world 6000 (Some ''openai''))
       = Inr \<lparr>list_vendors = [''openai''],
              apis = [\<lparr>api_vendor = ''OpenAI'', api_model = ''gpt-4o'',
                       capabilities = [''chat'', ''image'']\<rparr>]\<rparr>
   \<and> fst (listApis warm_state offline_world 6000 (Some ''Suno''))
       = Inr \<lparr>list_vendors = [''Suno''], apis = []\<rparr>"
proof -
  have h: "loadIndex warm_state offline_world 6000 = (Inr small_index, warm_state, offline_world)"
    by (simp add: loadIndex_def warm_state_def CACHE_TTL_def)
  have v: "''openai'' \<noteq> []" by simp
  have c: "fst (listApis warm_state offline_world 6000 (Some ''openai''))
       = Inr \<lparr>list_vendors = [''openai''],
              apis = [\<lparr>api_vendor = ''OpenAI'', api_model = ''gpt-4o'',
                       capabilities = [''chat'', ''image'']\<rparr>]\<rparr>
   \<and> fst (listApis warm_state offline_world 6000 (Some ''Suno''))
       = Inr \<lparr>list_vendors = [''Suno''], apis = []\<rparr>"
    by code_simp
  show ?thesis
    by (rule conjI [OF h conjI [OF v conjI [OF listApis_given_vendor [OF h v] c]]])
qed

text \<open>
  C7 as the claim states it, for every given vendor, fails at the given vendor that is the
  empty string. No entry of \<open>small_index\<close> is kept for it, so the claim has the vendor list
  \<open>[[]]\<close> and no record. The test \<^verbatim>\<open>if (vendor)\<close> is false for the empty string, and
  \<open>listApis\<close> answers as for the omitted vendor: the vendor list of the index and one
  summary record per vendor.
\<close>

theorem listApis_empty_vendor_lists_all:
  "vendor_entries small_index [] = []
   \<and> fst (listApis warm_state offline_world 6000 (Some []))
       = Inr \<lparr>list_vendors = [''Claude'', ''OpenAI''],
              apis = [\<lparr>api_vendor = ''Claude'', api_model = ''1 models available'',
                       capabilities = []\<rparr>,
                      \<lparr>api_vendor = ''OpenAI'', api_model = ''1 models available'',
                       capabilities = []\<rparr>]\<rparr>
   \<and> fst (listApis warm_state offline_world 6000 (Some []))
       \<noteq> Inr \<lparr>list_vendors = [[]], apis = []\<rparr>"
  by code_simp



end
